theory Spec2Isabelle
  imports Main
begin

section \<open>Python values, keyword arguments and string helpers\<close>

text \<open>
  The values that travel through dbbase are the Python values SQLite can bind:
  \<open>None\<close>, booleans, integers and strings. Keyword arguments (\<open>**kwargs\<close>) and
  dictionaries are association lists in insertion order: the source iterates them with
  \<open>items()\<close>, \<open>keys()\<close> and \<open>values()\<close>, all of which follow insertion order.
\<close>

datatype pyval = PyNone | PyBool bool | PyInt int | PyStr string

type_synonym kwargs = "(string \<times> pyval) list"

type_synonym row = "(string \<times> pyval) list"

text \<open>
  The exceptions of the program as values. \<open>DatabaseConnectionError\<close> carries its
  message (core.py raises it with three different messages); \<open>TypeError\<close> is what
  Python raises for \<open>"%" + value\<close> on a value that is not a string and for a keyword
  that collides with a positional parameter; \<open>Raised\<close> is any other exception, raised
  by a plugin hook or by the SQLite driver outside \<open>sqlite3.Error\<close>.
\<close>

datatype error = DatabaseConnectionError string | TypeError | Raised string

text \<open>\<open>str(n)\<close> for integers, as the f-strings of the source format them.\<close>

definition digit_char :: "nat \<Rightarrow> char" where
  "digit_char d = ''0123456789'' ! d"

fun str_nat :: "nat \<Rightarrow> string" where
  "str_nat n = (if n < 10 then [digit_char n] else str_nat (n div 10) @ [digit_char (n mod 10)])"

declare str_nat.simps [simp del]

definition str_int :: "int \<Rightarrow> string" where
  "str_int i = (if i < 0 then CHR ''-'' # str_nat (nat (- i)) else str_nat (nat i))"

fun py_str :: "pyval \<Rightarrow> string" where
  "py_str PyNone = ''None''"
| "py_str (PyBool b) = (if b then ''True'' else ''False'')"
| "py_str (PyInt i) = str_int i"
| "py_str (PyStr s) = s"

text \<open>\<open>sep.join(xs)\<close>.\<close>

fun join :: "string \<Rightarrow> string list \<Rightarrow> string" where
  "join sep [] = []"
| "join sep [x] = x"
| "join sep (x # y # ys) = x @ sep @ join sep (y # ys)"

section \<open>models.py: Field\<close>

record field =
  field_type :: string
  primary_key :: bool
  nullable :: bool
  default_value :: pyval
  unique :: bool

text \<open>
  \<open>Field.get_definition\<close>: the definition is built by appending to \<open>field_def\<close>, one
  \<open>if\<close> after the other, as in the source. \<open>default_value\<close> is the attribute
  \<open>default\<close>; it is set when it \<open>is not None\<close>.
\<close>

definition get_definition :: "field \<Rightarrow> string" where
  "get_definition self =
    (let field_def = field_type self;
         field_def = (if primary_key self then field_def @ '' PRIMARY KEY'' else field_def);
         field_def = (if unique self
                      then (if \<not> primary_key self then field_def @ '' UNIQUE'' else field_def)
                      else field_def);
         field_def = (if \<not> nullable self then field_def @ '' NOT NULL'' else field_def);
         field_def = (if default_value self \<noteq> PyNone
                      then field_def @ '' DEFAULT '' @ py_str (default_value self)
                      else field_def)
     in field_def)"

section \<open>plugin_manager.py\<close>

text \<open>
  What the program does to the outside is recorded, in order, in a trace: every hook
  of a plugin that is called, every statement handed to the SQLite cursor, every
  script, commit and rollback.
\<close>

datatype hookarg =
    ArgDb
  | ArgStr string
  | ArgTuple "pyval list"
  | ArgDict kwargs
  | ArgRow "row option"

datatype event =
    HookCalled string "hookarg list" kwargs
  | Executed string "pyval list"
  | ScriptExecuted string
  | Committed
  | RolledBack

text \<open>
  A plugin is an arbitrary object: \<open>getattr(plugin, hook_name, None)\<close> gives a callable
  or nothing. The callable is foreign code; here it is an observer that, given its
  positional and keyword arguments, returns or raises. It changes neither the
  connection nor the arguments it is given.
\<close>

type_synonym hook = "hookarg list \<Rightarrow> kwargs \<Rightarrow> error option"

type_synonym plugin = "string \<Rightarrow> hook option"

record 'c dbbase =
  db_path :: string
  connection :: "'c option"
  trace :: "event list"

text \<open>
  \<open>PluginManager.call_hook\<close>: the loop over \<open>self.plugins\<close>, in registration order.
  An exception of a hook is not caught: the loop ends there.
\<close>

fun call_hook ::
  "plugin list \<Rightarrow> string \<Rightarrow> hookarg list \<Rightarrow> kwargs \<Rightarrow> 'c dbbase \<Rightarrow> (error + unit) \<times> 'c dbbase"
where
  "call_hook [] hook_name args kw w = (Inr (), w)"
| "call_hook (plugin # plugins) hook_name args kw w =
     (case plugin hook_name of
        None \<Rightarrow> call_hook plugins hook_name args kw w
      | Some hook \<Rightarrow>
          (let w1 = w\<lparr>trace := trace w @ [HookCalled hook_name args kw]\<rparr>
           in case hook args kw of
                Some e \<Rightarrow> (Inl e, w1)
              | None \<Rightarrow> call_hook plugins hook_name args kw w1))"


section \<open>core.py: DBBase\<close>

text \<open>
  The SQLite driver is a collaborator, taken as a parameter: what a cursor does with a
  statement and its parameters on a connection in state \<open>'c\<close> (the rows it yields and
  the new state, a \<open>sqlite3.Error\<close>, or another exception), and the same for scripts,
  commit and rollback.
\<close>

datatype 'c outcome = Done "row list" 'c | SqliteError string | OtherError string

record 'c sqlite3 =
  cursor_execute :: "'c \<Rightarrow> string \<Rightarrow> pyval list \<Rightarrow> 'c outcome"
  executescript :: "'c \<Rightarrow> string \<Rightarrow> 'c outcome"
  commit :: "'c \<Rightarrow> string + 'c"
  rollback :: "'c \<Rightarrow> 'c"

definition not_established :: error where
  "not_established = DatabaseConnectionError ''Database connection is not established.''"



text \<open>
  \<open>DBBase.execute\<close>. The cursor it returns is modelled by the rows the cursor holds.
  The \<open>before_query\<close> hooks run after the connection check and outside the \<open>try\<close>.
\<close>

definition execute ::
  "'c sqlite3 \<Rightarrow> plugin list \<Rightarrow> string \<Rightarrow> pyval list \<Rightarrow> 'c dbbase \<Rightarrow> (error + row list) \<times> 'c dbbase"
where
  "execute sq pm query params self =
    (case connection self of
       None \<Rightarrow> (Inl not_established, self)
     | Some conn \<Rightarrow>
        (case call_hook pm ''before_query'' [ArgStr query, ArgTuple params] [] self of
           (Inl e, self1) \<Rightarrow> (Inl e, self1)
         | (Inr _, self1) \<Rightarrow>
            (let self2 = self1\<lparr>trace := trace self1 @ [Executed query params]\<rparr>
             in case cursor_execute sq conn query params of
                  Done rows conn' \<Rightarrow> (Inr rows, self2\<lparr>connection := Some conn'\<rparr>)
                | SqliteError msg \<Rightarrow>
                    (Inl (DatabaseConnectionError (''Failed to execute query: '' @ msg)), self2)
                | OtherError msg \<Rightarrow> (Inl (Raised msg), self2))))"

definition fetchone :: "row list \<Rightarrow> row option" where
  "fetchone cursor = (case cursor of [] \<Rightarrow> None | r # _ \<Rightarrow> Some r)"

definition fetch_one ::
  "'c sqlite3 \<Rightarrow> plugin list \<Rightarrow> string \<Rightarrow> pyval list \<Rightarrow> 'c dbbase \<Rightarrow> (error + row option) \<times> 'c dbbase"
where
  "fetch_one sq pm query params self =
    (case execute sq pm query params self of
       (Inl e, self1) \<Rightarrow> (Inl e, self1)
     | (Inr cursor, self1) \<Rightarrow> (Inr (fetchone cursor), self1))"

definition fetch_all ::
  "'c sqlite3 \<Rightarrow> plugin list \<Rightarrow> string \<Rightarrow> pyval list \<Rightarrow> 'c dbbase \<Rightarrow> (error + row list) \<times> 'c dbbase"
where
  "fetch_all sq pm query params self =
    (case execute sq pm query params self of
       (Inl e, self1) \<Rightarrow> (Inl e, self1)
     | (Inr cursor, self1) \<Rightarrow> (Inr cursor, self1))"






section \<open>models.py: Model\<close>

text \<open>
  A model class: its \<open>table_name\<close> and the fields its metaclass collected in
  \<open>_meta['fields']\<close>, in declaration order.
\<close>

record model_class =
  cls_table_name :: string
  cls_fields :: "(string \<times> field) list"





definition Model_get ::
  "'c sqlite3 \<Rightarrow> plugin list \<Rightarrow> model_class \<Rightarrow> kwargs \<Rightarrow> 'c dbbase \<Rightarrow> (error + row option) \<times> 'c dbbase"
where
  "Model_get sq pm cls kw db =
    (let conditions = join '' AND '' (map (\<lambda>(key, _). key @ '' = ?'') kw);
         vals = map snd kw;
         query = ''SELECT * FROM '' @ cls_table_name cls @ '' WHERE '' @ conditions @
                 '' LIMIT 1''
     in fetch_one sq pm query vals db)"



section \<open>query.py: QueryBuilder\<close>

record querybuilder =
  table_name :: string
  filters :: kwargs
  filter_likes :: kwargs
  ordering :: "string option"

definition QueryBuilder_init :: "string \<Rightarrow> querybuilder" where
  "QueryBuilder_init t = \<lparr>table_name = t, filters = [], filter_likes = [], ordering = None\<rparr>"

text \<open>\<open>add_filter\<close> and \<open>add_filter_like\<close>: one \<open>append\<close> per item of the keywords.\<close>

definition add_filter :: "kwargs \<Rightarrow> querybuilder \<Rightarrow> querybuilder" where
  "add_filter kw self =
     self\<lparr>filters := fold (\<lambda>(key, v) fs. fs @ [(key, v)]) kw (filters self)\<rparr>"

definition add_filter_like :: "kwargs \<Rightarrow> querybuilder \<Rightarrow> querybuilder" where
  "add_filter_like kw self =
     self\<lparr>filter_likes := fold (\<lambda>(key, v) fs. fs @ [(key, v)]) kw (filter_likes self)\<rparr>"

definition set_order :: "string \<Rightarrow> bool \<Rightarrow> querybuilder \<Rightarrow> querybuilder" where
  "set_order field_name descending self =
     (let direction = (if descending then ''DESC'' else ''ASC'')
      in self\<lparr>ordering := Some (field_name @ '' '' @ direction)\<rparr>)"

text \<open>
  \<open>"%" + value + "%"\<close>: string concatenation, a \<open>TypeError\<close> when the value is not a
  string. The generator expression of \<open>build_select\<close> stops at the first such value.
\<close>

fun like_pattern :: "pyval \<Rightarrow> error + pyval" where
  "like_pattern (PyStr s) = Inr (PyStr (''%'' @ s @ ''%''))"
| "like_pattern _ = Inl TypeError"

fun like_values :: "kwargs \<Rightarrow> error + pyval list" where
  "like_values [] = Inr []"
| "like_values ((_, v) # rest) =
     (case like_pattern v of
        Inl e \<Rightarrow> Inl e
      | Inr p \<Rightarrow> (case like_values rest of Inl e \<Rightarrow> Inl e | Inr ps \<Rightarrow> Inr (p # ps)))"

text \<open>
  \<open>build_select\<close>. The two filter kinds are tested by two independent \<open>if\<close>
  statements, each appending its own \<open>WHERE\<close>; \<open>if self.ordering\<close> is Python
  truthiness (neither \<open>None\<close> nor the empty string).
\<close>

definition build_select :: "querybuilder \<Rightarrow> error + (string \<times> pyval list)" where
  "build_select self =
    (let query = ''SELECT * FROM '' @ table_name self;
         query = (if filters self \<noteq> []
                  then query @ '' WHERE '' @
                       join '' AND '' (map (\<lambda>(key, _). key @ '' = ?'') (filters self))
                  else query);
         query = (if filter_likes self \<noteq> []
                  then query @ '' WHERE '' @
                       join '' AND '' (map (\<lambda>(key, _). key @ '' LIKE ?'') (filter_likes self))
                  else query);
         query = (case ordering self of
                    None \<Rightarrow> query
                  | Some ord \<Rightarrow> (if ord \<noteq> [] then query @ '' ORDER BY '' @ ord else query));
         value_tuple = map snd (filters self)
     in case like_values (filter_likes self) of
          Inl e \<Rightarrow> Inl e
        | Inr likes \<Rightarrow> Inr (query, value_tuple @ likes))"

section \<open>query.py: QuerySet\<close>

text \<open>
  A \<open>QuerySet\<close> owns its builder and borrows the connection, which is the \<open>dbbase\<close>
  state passed to its fetching methods. The chaining methods return \<open>self\<close>: here,
  the updated query set.
\<close>

record queryset =
  model :: model_class
  query_builder :: querybuilder

definition QuerySet_init :: "model_class \<Rightarrow> queryset" where
  "QuerySet_init m = \<lparr>model = m, query_builder = QueryBuilder_init (cls_table_name m)\<rparr>"

definition QuerySet_filter :: "kwargs \<Rightarrow> queryset \<Rightarrow> queryset" where
  "QuerySet_filter kw self = self\<lparr>query_builder := add_filter kw (query_builder self)\<rparr>"

definition QuerySet_filter_like :: "kwargs \<Rightarrow> queryset \<Rightarrow> queryset" where
  "QuerySet_filter_like kw self =
     self\<lparr>query_builder := add_filter_like kw (query_builder self)\<rparr>"

definition order_by :: "string \<Rightarrow> bool \<Rightarrow> queryset \<Rightarrow> queryset" where
  "order_by field_name descending self =
     self\<lparr>query_builder := set_order field_name descending (query_builder self)\<rparr>"

definition QuerySet_all ::
  "'c sqlite3 \<Rightarrow> plugin list \<Rightarrow> queryset \<Rightarrow> 'c dbbase \<Rightarrow> (error + row list) \<times> 'c dbbase"
where
  "QuerySet_all sq pm self db =
    (case build_select (query_builder self) of
       Inl e \<Rightarrow> (Inl e, db)
     | Inr (query, params) \<Rightarrow> fetch_all sq pm query params db)"

text \<open>
  \<open>QuerySet.get\<close> returns the row and leaves the query set mutated: the result is
  the outcome of the fetch, the connection state, and the query set after the call.
\<close>

definition QuerySet_get ::
  "'c sqlite3 \<Rightarrow> plugin list \<Rightarrow> kwargs \<Rightarrow> queryset \<Rightarrow> 'c dbbase
     \<Rightarrow> ((error + row option) \<times> 'c dbbase) \<times> queryset"
where
  "QuerySet_get sq pm kw self db =
    (let self1 = QuerySet_filter kw self
     in case build_select (query_builder self1) of
          Inl e \<Rightarrow> ((Inl e, db), self1)
        | Inr (query, params) \<Rightarrow> (fetch_one sq pm query params db, self1))"

section \<open>Describing runs\<close>

text \<open>
  The hypotheses and traces of the theorems below. \<open>hooks_return\<close>: no hook of a
  registered plugin raises. \<open>hook_events\<close>: the calls one \<open>call_hook\<close> makes then, one
  per plugin that has the hook, in registration order. \<open>query_events\<close>: what one
  successful \<open>execute\<close> adds to the trace. \<open>statements\<close>: the statements and scripts
  of a trace.
\<close>

definition hooks_return :: "plugin list \<Rightarrow> bool" where
  "hooks_return pm =
     (\<forall>plugin \<in> set pm. \<forall>hook_name hook args kw.
        plugin hook_name = Some hook \<longrightarrow> hook args kw = None)"

definition hook_events :: "plugin list \<Rightarrow> string \<Rightarrow> hookarg list \<Rightarrow> kwargs \<Rightarrow> event list" where
  "hook_events pm hook_name args kw =
     replicate (length (filter (\<lambda>plugin. plugin hook_name \<noteq> None) pm))
               (HookCalled hook_name args kw)"

definition query_events :: "plugin list \<Rightarrow> string \<Rightarrow> pyval list \<Rightarrow> event list" where
  "query_events pm query params =
     hook_events pm ''before_query'' [ArgStr query, ArgTuple params] [] @
     [Executed query params]"



text \<open>The number of \<open>?\<close> placeholders of a statement text.\<close>

definition placeholders :: "string \<Rightarrow> nat" where
  "placeholders q = count_list q (CHR ''?'')"

section \<open>Properties of the statement builders\<close>

lemma add_filter_fold: "fold (\<lambda>(key, v) fs. fs @ [(key, v)]) kw fs0 = fs0 @ kw"
  by (induction kw arbitrary: fs0) auto

lemma add_filter_append: "add_filter kw self = self\<lparr>filters := filters self @ kw\<rparr>"
  by (simp add: add_filter_def add_filter_fold)

lemma like_values_Cons_str:
  "like_values ((k, PyStr s) # kw) = Inr ps \<longleftrightarrow>
   (\<exists>ps'. like_values kw = Inr ps' \<and> ps = PyStr (''%'' @ s @ ''%'') # ps')"
  by (auto split: sum.splits)

lemma like_values_Cons_other:
  "(\<forall>s. v \<noteq> PyStr s) \<Longrightarrow> like_values ((k, v) # kw) \<noteq> Inr ps"
  by (cases v) auto

lemma like_values_Inr:
  "like_values kw = Inr ps \<longleftrightarrow>
   (\<exists>ss. map snd kw = map PyStr ss \<and> ps = map (\<lambda>s. PyStr (''%'' @ s @ ''%'')) ss)"
proof (induction kw arbitrary: ps)
  case Nil
  then show ?case by auto
next
  case (Cons a kw)
  obtain k v where a: "a = (k, v)" by (cases a)
  show ?case
  proof (cases "\<exists>s. v = PyStr s")
    case True
    then obtain s where v: "v = PyStr s" by blast
    show ?thesis
      unfolding a v like_values_Cons_str Cons.IH
      by (auto simp: Cons_eq_map_conv)
  next
    case False
    then have "like_values (a # kw) \<noteq> Inr ps"
      using like_values_Cons_other [of v k kw ps] by (simp add: a)
    moreover have "\<not> (\<exists>ss. map snd (a # kw) = map PyStr ss \<and>
                         ps = map (\<lambda>s. PyStr (''%'' @ s @ ''%'')) ss)"
      using False by (auto simp: a Cons_eq_map_conv)
    ultimately show ?thesis by blast
  qed
qed

lemma like_values_strings:
  "map snd kw = map PyStr ss \<Longrightarrow>
   like_values kw = Inr (map (\<lambda>s. PyStr (''%'' @ s @ ''%'')) ss)"
  unfolding like_values_Inr by blast

lemma count_join:
  "count_list (join sep xs) c =
     sum_list (map (\<lambda>x. count_list x c) xs) + (length xs - 1) * count_list sep c"
  by (induction sep xs rule: join.induct) auto

lemma placeholders_append: "placeholders (a @ b) = placeholders a + placeholders b"
  by (simp add: placeholders_def)

lemma placeholders_clauses:
  assumes "\<forall>key \<in> fst ` set kw. CHR ''?'' \<notin> set key" and "CHR ''?'' \<notin> set op"
  shows "placeholders (join '' AND '' (map (\<lambda>(key, _). key @ op @ ''?'') kw)) = length kw"
proof -
  have "sum_list (map (\<lambda>x. count_list x (CHR ''?''))
                      (map (\<lambda>(key, _). key @ op @ ''?'') kw)) = length kw"
    using assms by (induction kw) (auto simp: case_prod_beta)
  then show ?thesis
    by (simp add: placeholders_def count_join)
qed

subsection \<open>Equality filters together with LIKE filters\<close>

text \<open>
  Claim C1 says that with both kinds of filter present only the equality clause is
  emitted, so that the statement has fewer placeholders than parameters. The two
  \<open>if\<close> statements of \<open>build_select\<close> are independent, so this fails: for one
  equality filter and one LIKE filter the statement holds both clauses and has as many
  placeholders as parameters.
\<close>

theorem build_select_likes_dropped_counterexample:
  "filters \<lparr>table_name = ''t'', filters = [(''a'', PyInt 1)],
            filter_likes = [(''b'', PyStr ''x'')], ordering = None\<rparr> \<noteq> [] \<and>
   filter_likes \<lparr>table_name = ''t'', filters = [(''a'', PyInt 1)],
                 filter_likes = [(''b'', PyStr ''x'')], ordering = None\<rparr> \<noteq> [] \<and>
   build_select \<lparr>table_name = ''t'', filters = [(''a'', PyInt 1)],
                 filter_likes = [(''b'', PyStr ''x'')], ordering = None\<rparr> =
     Inr (''SELECT * FROM t WHERE a = ? WHERE b LIKE ?'', [PyInt 1, PyStr ''%x%'']) \<and>
   ''SELECT * FROM t WHERE a = ? WHERE b LIKE ?'' \<noteq> ''SELECT * FROM t WHERE a = ?'' \<and>
   \<not> placeholders ''SELECT * FROM t WHERE a = ? WHERE b LIKE ?'' <
       length [PyInt 1, PyStr ''%x%'']"
  by (simp add: build_select_def placeholders_def)

text \<open>
  Claim C1, amended: when both filter sequences are non-empty and the LIKE values are
  strings, \<open>build_select\<close> emits the equality clause and then the LIKE clause, each
  after a \<open>WHERE\<close> of its own, followed by the ordering if there is one; the
  parameters are the equality values and then the wrapped LIKE values; and when neither
  the table name, nor a field name, nor the ordering holds a \<open>?\<close>, the statement has
  exactly as many placeholders as there are parameters.
\<close>

theorem build_select_both_kinds:
  assumes "filters qb \<noteq> []" and "filter_likes qb \<noteq> []"
    and "map snd (filter_likes qb) = map PyStr ss"
  shows "\<exists>q ps. build_select qb = Inr (q, ps) \<and>
     q = ''SELECT * FROM '' @ table_name qb @
         '' WHERE '' @ join '' AND '' (map (\<lambda>(key, _). key @ '' = ?'') (filters qb)) @
         '' WHERE '' @ join '' AND '' (map (\<lambda>(key, _). key @ '' LIKE ?'') (filter_likes qb)) @
         (case ordering qb of
            None \<Rightarrow> []
          | Some ord \<Rightarrow> if ord \<noteq> [] then '' ORDER BY '' @ ord else []) \<and>
     ps = map snd (filters qb) @ map (\<lambda>s. PyStr (''%'' @ s @ ''%'')) ss \<and>
     (CHR ''?'' \<notin> set (table_name qb) \<and>
      (\<forall>key \<in> fst ` set (filters qb @ filter_likes qb). CHR ''?'' \<notin> set key) \<and>
      (\<forall>ord. ordering qb = Some ord \<longrightarrow> CHR ''?'' \<notin> set ord)
      \<longrightarrow> placeholders q = length ps)"
proof -
  let ?eq = "join '' AND '' (map (\<lambda>(key, _). key @ '' = ?'') (filters qb))"
  let ?like = "join '' AND '' (map (\<lambda>(key, _). key @ '' LIKE ?'') (filter_likes qb))"
  let ?ord = "(case ordering qb of
                 None \<Rightarrow> []
               | Some ord \<Rightarrow> if ord \<noteq> [] then '' ORDER BY '' @ ord else [])"
  let ?q = "''SELECT * FROM '' @ table_name qb @ '' WHERE '' @ ?eq @ '' WHERE '' @ ?like @ ?ord"
  let ?ps = "map snd (filters qb) @ map (\<lambda>s. PyStr (''%'' @ s @ ''%'')) ss"
  have run: "build_select qb = Inr (?q, ?ps)"
    using assms
    by (simp add: build_select_def Let_def like_values_strings split: option.splits)
  have count: "placeholders ?q = length ?ps"
    if t: "CHR ''?'' \<notin> set (table_name qb)"
      and k: "\<forall>key \<in> fst ` set (filters qb @ filter_likes qb). CHR ''?'' \<notin> set key"
      and o: "\<forall>ord. ordering qb = Some ord \<longrightarrow> CHR ''?'' \<notin> set ord"
  proof -
    have e: "placeholders ?eq = length (filters qb)"
      using k placeholders_clauses [of "filters qb" "'' = ''"] by simp
    have l: "placeholders ?like = length (filter_likes qb)"
      using k placeholders_clauses [of "filter_likes qb" "'' LIKE ''"] by simp
    have od: "placeholders ?ord = 0"
      using o by (simp add: placeholders_def split: option.splits)
    have tn: "placeholders (table_name qb) = 0"
      using t by (simp add: placeholders_def)
    have len: "length ss = length (filter_likes qb)"
      using assms(3) by (metis length_map)
    have "placeholders ?q =
          placeholders (table_name qb) + placeholders ?eq + placeholders ?like + placeholders ?ord"
      unfolding placeholders_append by (simp add: placeholders_def)
    then show ?thesis
      by (simp add: e l od tn len)
  qed
  show ?thesis
    using run count by blast
qed

theorem build_select_both_kinds_witness:
  "build_select \<lparr>table_name = ''posts'',
                  filters = [(''author'', PyStr ''ann''), (''year'', PyInt 2024)],
                  filter_likes = [(''title'', PyStr ''sql'')],
                  ordering = Some ''year DESC''\<rparr> =
     Inr (''SELECT * FROM posts WHERE author = ? AND year = ? WHERE title LIKE ? ORDER BY year DESC'',
          [PyStr ''ann'', PyInt 2024, PyStr ''%sql%'']) \<and>
   placeholders
     ''SELECT * FROM posts WHERE author = ? AND year = ? WHERE title LIKE ? ORDER BY year DESC'' = 3"
  using build_select_both_kinds
    [of "\<lparr>table_name = ''posts'',
          filters = [(''author'', PyStr ''ann''), (''year'', PyInt 2024)],
          filter_likes = [(''title'', PyStr ''sql'')],
          ordering = Some ''year DESC''\<rparr>" "[''sql'']"]
  by simp

subsection \<open>The parameter sequence\<close>

text \<open>
  Claim C2: \<open>build_select\<close> returns the parameter sequence \<open>ps\<close>, with whatever
  statement text, exactly when the LIKE values are strings \<open>ss\<close> and \<open>ps\<close> is the
  equality values in insertion order followed by each of \<open>ss\<close> wrapped in \<open>%\<close>, in
  insertion order. (With a LIKE value that is not a string \<open>build_select\<close> returns
  nothing: the concatenation raises a \<open>TypeError\<close>.)
\<close>

theorem build_select_params:
  "(\<exists>q. build_select qb = Inr (q, ps)) \<longleftrightarrow>
   (\<exists>ss. map snd (filter_likes qb) = map PyStr ss \<and>
         ps = map snd (filters qb) @ map (\<lambda>s. PyStr (''%'' @ s @ ''%'')) ss)"
proof -
  have "(\<exists>q. build_select qb = Inr (q, ps)) \<longleftrightarrow>
        (\<exists>likes. like_values (filter_likes qb) = Inr likes \<and>
                 ps = map snd (filters qb) @ likes)"
    by (auto simp: build_select_def Let_def split: sum.splits)
  then show ?thesis
    by (auto simp: like_values_Inr)
qed

theorem build_select_params_witness:
  "\<exists>q. build_select \<lparr>table_name = ''users'',
                      filters = [(''age'', PyInt 30), (''city'', PyStr ''Oslo'')],
                      filter_likes = [(''name'', PyStr ''al''), (''mail'', PyStr ''@x'')],
                      ordering = None\<rparr> =
        Inr (q, [PyInt 30, PyStr ''Oslo'', PyStr ''%al%'', PyStr ''%@x%''])"
proof -
  have "map snd [(''name'', PyStr ''al''), (''mail'', PyStr ''@x'')] = map PyStr [''al'', ''@x'']"
    by simp
  then show ?thesis
    using build_select_params
      [of "\<lparr>table_name = ''users'',
            filters = [(''age'', PyInt 30), (''city'', PyStr ''Oslo'')],
            filter_likes = [(''name'', PyStr ''al''), (''mail'', PyStr ''@x'')],
            ordering = None\<rparr>"
          "[PyInt 30, PyStr ''Oslo'', PyStr ''%al%'', PyStr ''%@x%'']"]
    by (auto intro: exI [of _ "[''al'', ''@x'']"])
qed

subsection \<open>Filters accumulate\<close>

lemma fold_QuerySet_filter:
  "filters (query_builder (fold QuerySet_filter kws qs)) = filters (query_builder qs) @ concat kws
   \<and> filter_likes (query_builder (fold QuerySet_filter kws qs)) = filter_likes (query_builder qs)
   \<and> ordering (query_builder (fold QuerySet_filter kws qs)) = ordering (query_builder qs)
   \<and> table_name (query_builder (fold QuerySet_filter kws qs)) = table_name (query_builder qs)"
  by (induction kws arbitrary: qs) (simp_all add: QuerySet_filter_def add_filter_append)

lemma build_select_no_likes:
  assumes "filters qb \<noteq> []" and "filter_likes qb = []"
  shows "build_select qb =
     Inr (''SELECT * FROM '' @ table_name qb @ '' WHERE '' @
            join '' AND '' (map (\<lambda>(key, _). key @ '' = ?'') (filters qb)) @
            (case ordering qb of
               None \<Rightarrow> []
             | Some ord \<Rightarrow> if ord \<noteq> [] then '' ORDER BY '' @ ord else []),
          map snd (filters qb))"
  using assms by (simp add: build_select_def split: option.splits)

text \<open>
  Claim C6: the \<open>filter\<close> calls of a query set, in any number, append their pairs to
  the equality filters in call order and replace none; on a query set without LIKE
  filters the compiled statement is then \<open>WHERE\<close> followed by the clauses of all the
  equality filters, old and new, joined by \<open>AND\<close>, with their values as parameters in
  the same order; and \<open>filter(a=1)\<close> then \<open>filter(b=2)\<close> on a new query set compiles
  to \<open>WHERE a = ? AND b = ?\<close> with the parameters \<open>(1, 2)\<close>.
\<close>

theorem filters_accumulate:
  "filters (query_builder (fold QuerySet_filter kws qs)) =
     filters (query_builder qs) @ concat kws \<and>
   (filter_likes (query_builder qs) = [] \<and> filters (query_builder qs) @ concat kws \<noteq> [] \<longrightarrow>
      build_select (query_builder (fold QuerySet_filter kws qs)) =
        Inr (''SELECT * FROM '' @ table_name (query_builder qs) @ '' WHERE '' @
               join '' AND '' (map (\<lambda>(key, _). key @ '' = ?'')
                                  (filters (query_builder qs) @ concat kws)) @
               (case ordering (query_builder qs) of
                  None \<Rightarrow> []
                | Some ord \<Rightarrow> if ord \<noteq> [] then '' ORDER BY '' @ ord else []),
             map snd (filters (query_builder qs) @ concat kws))) \<and>
   build_select (query_builder
       (QuerySet_filter [(''b'', PyInt 2)] (QuerySet_filter [(''a'', PyInt 1)] (QuerySet_init m)))) =
     Inr (''SELECT * FROM '' @ cls_table_name m @ '' WHERE a = ? AND b = ?'', [PyInt 1, PyInt 2])"
proof -
  let ?qb = "query_builder (fold QuerySet_filter kws qs)"
  have general: "build_select ?qb =
        Inr (''SELECT * FROM '' @ table_name (query_builder qs) @ '' WHERE '' @
               join '' AND '' (map (\<lambda>(key, _). key @ '' = ?'')
                                  (filters (query_builder qs) @ concat kws)) @
               (case ordering (query_builder qs) of
                  None \<Rightarrow> []
                | Some ord \<Rightarrow> if ord \<noteq> [] then '' ORDER BY '' @ ord else []),
             map snd (filters (query_builder qs) @ concat kws))"
    if "filter_likes (query_builder qs) = []" "filters (query_builder qs) @ concat kws \<noteq> []"
    using build_select_no_likes [of ?qb] that
    by (simp only: fold_QuerySet_filter simp_thms)
  have example: "build_select (query_builder
       (QuerySet_filter [(''b'', PyInt 2)] (QuerySet_filter [(''a'', PyInt 1)] (QuerySet_init m)))) =
     Inr (''SELECT * FROM '' @ cls_table_name m @ '' WHERE a = ? AND b = ?'', [PyInt 1, PyInt 2])"
    by (simp add: build_select_def QuerySet_filter_def add_filter_append QuerySet_init_def
        QueryBuilder_init_def)
  show ?thesis
    using fold_QuerySet_filter [of kws qs] general example by blast
qed

theorem filters_accumulate_witness:
  "build_select (query_builder (fold QuerySet_filter
       [[(''a'', PyInt 1)], [(''b'', PyInt 2), (''c'', PyStr ''z'')], [(''d'', PyNone)]]
       (QuerySet_init \<lparr>cls_table_name = ''posts'', cls_fields = []\<rparr>))) =
     Inr (''SELECT * FROM posts WHERE a = ? AND b = ? AND c = ? AND d = ?'',
          [PyInt 1, PyInt 2, PyStr ''z'', PyNone])"
  using filters_accumulate
    [of "[[(''a'', PyInt 1)], [(''b'', PyInt 2), (''c'', PyStr ''z'')], [(''d'', PyNone)]]"
        "QuerySet_init \<lparr>cls_table_name = ''posts'', cls_fields = []\<rparr>"]
  by (simp add: QuerySet_init_def QueryBuilder_init_def)

subsection \<open>Ordering: the last call wins\<close>

lemma set_order_twice: "set_order f d (set_order f' d' qb) = set_order f d qb"
  by (simp add: set_order_def)

lemma query_builder_order_by:
  "query_builder (order_by f d qs) = set_order f d (query_builder qs)"
  by (simp add: order_by_def)

lemma fold_order_by_frame:
  "(query_builder (fold (\<lambda>(f, d). order_by f d) calls qs))\<lparr>ordering := ord\<rparr> =
   (query_builder qs)\<lparr>ordering := ord\<rparr>"
proof (induction calls arbitrary: qs)
  case Nil
  then show ?case by simp
next
  case (Cons c calls)
  obtain f' d' where c: "c = (f', d')" by (cases c)
  show ?case
    by (simp add: c Cons.IH) (simp add: order_by_def set_order_def)
qed

lemma fold_order_by:
  "query_builder (fold (\<lambda>(f, d). order_by f d) (calls @ [(f, d)]) qs) =
     set_order f d (query_builder qs)"
  using fold_order_by_frame [where calls = calls and qs = qs]
  by (simp add: query_builder_order_by) (simp add: set_order_def)

lemma build_select_set_order:
  assumes "build_select (qb\<lparr>ordering := None\<rparr>) = Inr (q0, ps)"
  shows "build_select (set_order f d qb) =
     Inr (q0 @ '' ORDER BY '' @ f @ '' '' @ (if d then ''DESC'' else ''ASC''), ps)"
  using assms
  by (auto simp: build_select_def set_order_def Let_def split: sum.splits)

lemma fold_set_order:
  "fold (\<lambda>(f, d). set_order f d) (calls @ [(f, d)]) qb = set_order f d qb"
proof -
  have "(fold (\<lambda>(f, d). set_order f d) calls qb)\<lparr>ordering := ord\<rparr> = qb\<lparr>ordering := ord\<rparr>"
    for ord
  proof (induction calls arbitrary: qb)
    case Nil
    then show ?case by simp
  next
    case (Cons c calls)
    obtain f' d' where c: "c = (f', d')" by (cases c)
    show ?case
      by (simp add: c Cons.IH) (simp add: set_order_def)
  qed
  then show ?thesis
    by (simp add: set_order_def)
qed

text \<open>
  Claim C7: after any sequence of \<open>set_order\<close> or \<open>order_by\<close> calls the builder is
  the one that the last call alone produces. The compiled statement is then the
  statement the builder compiles to without any ordering, followed by the \<open>ORDER BY\<close>
  of the last call and nothing else; after \<open>order_by('x')\<close> and
  \<open>order_by('y', descending=True)\<close> it ends with \<open>ORDER BY y DESC\<close>.
\<close>

theorem last_order_by_wins:
  "fold (\<lambda>(f, d). set_order f d) (calls @ [(f, d)]) qb = set_order f d qb \<and>
   query_builder (fold (\<lambda>(f, d). order_by f d) (calls @ [(f, d)]) qs) =
     set_order f d (query_builder qs) \<and>
   (\<forall>q0 ps. build_select ((query_builder qs)\<lparr>ordering := None\<rparr>) = Inr (q0, ps) \<longrightarrow>
      build_select (query_builder (fold (\<lambda>(f, d). order_by f d) (calls @ [(f, d)]) qs)) =
        Inr (q0 @ '' ORDER BY '' @ f @ '' '' @ (if d then ''DESC'' else ''ASC''), ps) \<and>
      build_select (query_builder (order_by ''y'' True (order_by ''x'' False qs))) =
        Inr (q0 @ '' ORDER BY y DESC'', ps))"
proof -
  let ?last = "fold (\<lambda>(f, d). order_by f d) (calls @ [(f, d)]) qs"
  have stored: "query_builder ?last = set_order f d (query_builder qs)"
    by (rule fold_order_by)
  have compiled: "build_select (query_builder ?last) =
      Inr (q0 @ '' ORDER BY '' @ f @ '' '' @ (if d then ''DESC'' else ''ASC''), ps)"
    if "build_select ((query_builder qs)\<lparr>ordering := None\<rparr>) = Inr (q0, ps)" for q0 ps
    using that by (simp only: stored build_select_set_order)
  have example: "build_select (query_builder (order_by ''y'' True (order_by ''x'' False qs))) =
      Inr (q0 @ '' ORDER BY y DESC'', ps)"
    if "build_select ((query_builder qs)\<lparr>ordering := None\<rparr>) = Inr (q0, ps)" for q0 ps
    using build_select_set_order [OF that, of "''y''" True]
    by (simp add: query_builder_order_by set_order_twice)
  show ?thesis
    using fold_set_order [of calls f d qb] stored compiled example by blast
qed

theorem last_order_by_wins_witness:
  "build_select (query_builder (order_by ''y'' True (order_by ''x'' False
       (QuerySet_filter [(''a'', PyInt 1)]
          (QuerySet_init \<lparr>cls_table_name = ''posts'', cls_fields = []\<rparr>))))) =
     Inr (''SELECT * FROM posts WHERE a = ? ORDER BY y DESC'', [PyInt 1])"
proof -
  let ?qs = "QuerySet_filter [(''a'', PyInt 1)]
               (QuerySet_init \<lparr>cls_table_name = ''posts'', cls_fields = []\<rparr>)"
  have "build_select ((query_builder ?qs)\<lparr>ordering := None\<rparr>) =
          Inr (''SELECT * FROM posts WHERE a = ?'', [PyInt 1])"
    by (simp add: build_select_def QuerySet_filter_def add_filter_append QuerySet_init_def
        QueryBuilder_init_def)
  then show ?thesis
    using last_order_by_wins [where calls = "[]" and f = "''y''" and d = True and qs = ?qs]
    by simp
qed

subsection \<open>Column definitions\<close>

text \<open>
  Claim C8: \<open>get_definition\<close> is the storage type followed, in this order, by
  \<open>PRIMARY KEY\<close> for a primary key, \<open>UNIQUE\<close> for a unique field that is not the
  primary key, \<open>NOT NULL\<close> for a field that is not nullable, and \<open>DEFAULT\<close> with
  the default as \<open>str\<close> formats it when a default is set; and nothing else. For a
  primary key, declaring the field unique or not gives the same definition.
\<close>

theorem get_definition_clauses:
  "get_definition f =
     field_type f @
     (if primary_key f then '' PRIMARY KEY'' else []) @
     (if unique f \<and> \<not> primary_key f then '' UNIQUE'' else []) @
     (if \<not> nullable f then '' NOT NULL'' else []) @
     (if default_value f \<noteq> PyNone then '' DEFAULT '' @ py_str (default_value f) else []) \<and>
   (primary_key f \<longrightarrow>
      get_definition (f\<lparr>unique := True\<rparr>) = get_definition (f\<lparr>unique := False\<rparr>))"
proof -
  have clauses: "get_definition g =
     field_type g @
     (if primary_key g then '' PRIMARY KEY'' else []) @
     (if unique g \<and> \<not> primary_key g then '' UNIQUE'' else []) @
     (if \<not> nullable g then '' NOT NULL'' else []) @
     (if default_value g \<noteq> PyNone then '' DEFAULT '' @ py_str (default_value g) else [])"
    for g
    by (simp add: get_definition_def Let_def)
  have suppressed: "get_definition (f\<lparr>unique := True\<rparr>) = get_definition (f\<lparr>unique := False\<rparr>)"
    if "primary_key f"
    using that by (simp add: clauses)
  show ?thesis
    using clauses [of f] suppressed by blast
qed

theorem get_definition_clauses_witness:
  "get_definition \<lparr>field_type = ''INTEGER'', primary_key = False, nullable = False,
                    default_value = PyInt 120, unique = True\<rparr> =
     ''INTEGER UNIQUE NOT NULL DEFAULT 120'' \<and>
   get_definition \<lparr>field_type = ''INTEGER'', primary_key = True, nullable = True,
                    default_value = PyNone, unique = True\<rparr> = ''INTEGER PRIMARY KEY'' \<and>
   get_definition \<lparr>field_type = ''INTEGER'', primary_key = True, nullable = True,
                    default_value = PyNone, unique = False\<rparr> = ''INTEGER PRIMARY KEY'' \<and>
   get_definition \<lparr>field_type = ''TEXT'', primary_key = False, nullable = True,
                    default_value = PyInt 0, unique = False\<rparr> = ''TEXT DEFAULT 0''"
  using get_definition_clauses
    [of "\<lparr>field_type = ''INTEGER'', primary_key = False, nullable = False,
          default_value = PyInt 120, unique = True\<rparr>"]
    get_definition_clauses
    [of "\<lparr>field_type = ''INTEGER'', primary_key = True, nullable = True,
          default_value = PyNone, unique = True\<rparr>"]
    get_definition_clauses
    [of "\<lparr>field_type = ''TEXT'', primary_key = False, nullable = True,
          default_value = PyInt 0, unique = False\<rparr>"]
  by (auto simp add: str_int_def str_nat.simps digit_char_def)

section \<open>Properties of the operations on a connection\<close>

subsection \<open>Runs in which nothing fails\<close>

lemma call_hook_returns:
  "hooks_return pm \<Longrightarrow>
   call_hook pm name args kw w = (Inr (), w\<lparr>trace := trace w @ hook_events pm name args kw\<rparr>)"
proof (induction pm arbitrary: w)
  case Nil
  then show ?case by (simp add: hook_events_def)
next
  case (Cons p pm)
  have rest: "hooks_return pm"
    using Cons.prems by (simp add: hooks_return_def)
  show ?case
  proof (cases "p name")
    case None
    then show ?thesis
      using Cons.IH [OF rest] by (simp add: hook_events_def)
  next
    case (Some h)
    have "h args kw = None"
      using Cons.prems Some by (simp add: hooks_return_def)
    then show ?thesis
      using Cons.IH [OF rest] Some by (simp add: hook_events_def)
  qed
qed


lemma execute_returns:
  assumes "connection self = Some conn" and "hooks_return pm"
    and "cursor_execute sq conn query params = Done rows conn'"
  shows "execute sq pm query params self =
     (Inr rows, self\<lparr>connection := Some conn',
                      trace := trace self @ query_events pm query params\<rparr>)"
  using assms
  by (simp add: execute_def call_hook_returns query_events_def)

lemma fetch_one_returns:
  assumes "connection self = Some conn" and "hooks_return pm"
    and "cursor_execute sq conn query params = Done rows conn'"
  shows "fetch_one sq pm query params self =
     (Inr (fetchone rows), self\<lparr>connection := Some conn',
                      trace := trace self @ query_events pm query params\<rparr>)"
  using execute_returns [OF assms] by (simp add: fetch_one_def)





subsection \<open>Model.create\<close>



subsection \<open>Model.update\<close>



subsection \<open>No connection\<close>



subsection \<open>QuerySet.get\<close>

lemma QuerySet_get_result:
  "fst (QuerySet_get sq pm kw qs db) =
     (case build_select (query_builder (QuerySet_filter kw qs)) of
        Inl e \<Rightarrow> (Inl e, db)
      | Inr (query, params) \<Rightarrow> fetch_one sq pm query params db)"
  by (simp add: QuerySet_get_def Let_def split: sum.splits prod.splits)

lemma QuerySet_get_leaves:
  "snd (QuerySet_get sq pm kw qs db) = QuerySet_filter kw qs"
  by (simp add: QuerySet_get_def Let_def split: sum.splits prod.splits)

text \<open>
  Claim C4: \<open>QuerySet.get\<close> leaves the query set with the pairs of its keywords
  appended to the equality filters of the builder and nothing else changed, whatever
  the outcome; filters added later come after them, and a later compilation is the
  compilation of that builder. Its result is the result of \<open>fetch_one\<close> on the
  statement compiled from that builder: on an established connection, with hooks that
  return and a driver that yields \<open>rows\<close>, the first of \<open>rows\<close>, or \<open>None\<close> when
  there is none.
\<close>

theorem QuerySet_get_keeps_filters:
  "snd (QuerySet_get sq pm kw qs db) =
     qs\<lparr>query_builder := (query_builder qs)\<lparr>filters := filters (query_builder qs) @ kw\<rparr>\<rparr> \<and>
   filters (query_builder (QuerySet_filter kw' (snd (QuerySet_get sq pm kw qs db)))) =
     filters (query_builder qs) @ kw @ kw' \<and>
   build_select (query_builder (snd (QuerySet_get sq pm kw qs db))) =
     build_select ((query_builder qs)\<lparr>filters := filters (query_builder qs) @ kw\<rparr>) \<and>
   fst (QuerySet_get sq pm kw qs db) =
     (case build_select ((query_builder qs)\<lparr>filters := filters (query_builder qs) @ kw\<rparr>) of
        Inl e \<Rightarrow> (Inl e, db)
      | Inr (query, params) \<Rightarrow> fetch_one sq pm query params db) \<and>
   (\<forall>conn query params rows conn'.
      connection db = Some conn \<and> hooks_return pm \<and>
      build_select ((query_builder qs)\<lparr>filters := filters (query_builder qs) @ kw\<rparr>) =
        Inr (query, params) \<and>
      cursor_execute sq conn query params = Done rows conn'
      \<longrightarrow> fst (QuerySet_get sq pm kw qs db) =
            (Inr (case rows of [] \<Rightarrow> None | r # _ \<Rightarrow> Some r),
             db\<lparr>connection := Some conn', trace := trace db @ query_events pm query params\<rparr>))"
proof -
  let ?qb = "(query_builder qs)\<lparr>filters := filters (query_builder qs) @ kw\<rparr>"
  have qb: "query_builder (QuerySet_filter kw qs) = ?qb"
    by (simp add: QuerySet_filter_def add_filter_append)
  have left: "snd (QuerySet_get sq pm kw qs db) = qs\<lparr>query_builder := ?qb\<rparr>"
    by (simp add: QuerySet_get_leaves QuerySet_filter_def add_filter_append)
  have later: "filters (query_builder (QuerySet_filter kw' (snd (QuerySet_get sq pm kw qs db)))) =
     filters (query_builder qs) @ kw @ kw'"
    by (simp add: left) (simp add: QuerySet_filter_def add_filter_append)
  have compiled: "build_select (query_builder (snd (QuerySet_get sq pm kw qs db))) =
     build_select ?qb"
    by (simp add: left)
  have result: "fst (QuerySet_get sq pm kw qs db) =
     (case build_select ?qb of
        Inl e \<Rightarrow> (Inl e, db)
      | Inr (query, params) \<Rightarrow> fetch_one sq pm query params db)"
    by (simp only: QuerySet_get_result qb)
  have row: "fst (QuerySet_get sq pm kw qs db) =
            (Inr (case rows of [] \<Rightarrow> None | r # _ \<Rightarrow> Some r),
             db\<lparr>connection := Some conn', trace := trace db @ query_events pm query params\<rparr>)"
    if "connection db = Some conn" "hooks_return pm" "build_select ?qb = Inr (query, params)"
      "cursor_execute sq conn query params = Done rows conn'"
    for conn query params rows conn'
    using fetch_one_returns [OF that(1) that(2) that(4)] that(3)
    by (simp add: result fetchone_def)
  show ?thesis
    using left later compiled result row by blast
qed

theorem QuerySet_get_keeps_filters_witness:
  "QuerySet_get
     \<lparr>cursor_execute = (\<lambda>c q ps. Done [[(''id'', PyInt 7)], [(''id'', PyInt 9)]] (Suc c)),
      executescript = (\<lambda>c q. Done [] c), commit = (\<lambda>c. Inr c), rollback = (\<lambda>c. c)\<rparr>
     [] [(''b'', PyInt 2)]
     (QuerySet_filter [(''a'', PyInt 1)]
        (QuerySet_init \<lparr>cls_table_name = ''posts'', cls_fields = []\<rparr>))
     \<lparr>db_path = ''app.db'', connection = Some (0::nat), trace = []\<rparr> =
   ((Inr (Some [(''id'', PyInt 7)]),
     \<lparr>db_path = ''app.db'', connection = Some (Suc 0),
      trace = [Executed ''SELECT * FROM posts WHERE a = ? AND b = ?'' [PyInt 1, PyInt 2]]\<rparr>),
    \<lparr>model = \<lparr>cls_table_name = ''posts'', cls_fields = []\<rparr>,
     query_builder = \<lparr>table_name = ''posts'', filters = [(''a'', PyInt 1), (''b'', PyInt 2)],
                      filter_likes = [], ordering = None\<rparr>\<rparr>)"
proof -
  let ?sq = "\<lparr>cursor_execute = (\<lambda>c q ps. Done [[(''id'', PyInt 7)], [(''id'', PyInt 9)]] (Suc c)),
              executescript = (\<lambda>c q. Done [] c), commit = (\<lambda>c. Inr c),
              rollback = (\<lambda>c. c)\<rparr> :: nat sqlite3"
  let ?qs = "QuerySet_filter [(''a'', PyInt 1)]
               (QuerySet_init \<lparr>cls_table_name = ''posts'', cls_fields = []\<rparr>)"
  let ?db = "\<lparr>db_path = ''app.db'', connection = Some (0::nat), trace = []\<rparr>"
  have compile: "build_select ((query_builder ?qs)\<lparr>filters := filters (query_builder ?qs) @ [(''b'', PyInt 2)]\<rparr>) =
      Inr (''SELECT * FROM posts WHERE a = ? AND b = ?'', [PyInt 1, PyInt 2])"
    by (simp add: build_select_def QuerySet_filter_def add_filter_append QuerySet_init_def
        QueryBuilder_init_def)
  have pre: "connection ?db = Some 0 \<and> hooks_return [] \<and>
      build_select ((query_builder ?qs)\<lparr>filters := filters (query_builder ?qs) @ [(''b'', PyInt 2)]\<rparr>) =
        Inr (''SELECT * FROM posts WHERE a = ? AND b = ?'', [PyInt 1, PyInt 2]) \<and>
      cursor_execute ?sq 0 ''SELECT * FROM posts WHERE a = ? AND b = ?'' [PyInt 1, PyInt 2] =
        Done [[(''id'', PyInt 7)], [(''id'', PyInt 9)]] (Suc 0)"
    using compile by (simp add: hooks_return_def)
  note inst = QuerySet_get_keeps_filters [where sq = ?sq and pm = "[]" and kw = "[(''b'', PyInt 2)]"
      and qs = ?qs and db = ?db]
  have f: "fst (QuerySet_get ?sq [] [(''b'', PyInt 2)] ?qs ?db) =
        (Inr (Some [(''id'', PyInt 7)]),
         ?db\<lparr>connection := Some (Suc 0),
              trace := trace ?db @ query_events [] ''SELECT * FROM posts WHERE a = ? AND b = ?''
                                      [PyInt 1, PyInt 2]\<rparr>)"
    using inst [THEN conjunct2, THEN conjunct2, THEN conjunct2, THEN conjunct2, rule_format,
        OF pre]
    by simp
  have s: "snd (QuerySet_get ?sq [] [(''b'', PyInt 2)] ?qs ?db) =
      ?qs\<lparr>query_builder := (query_builder ?qs)\<lparr>filters := filters (query_builder ?qs) @ [(''b'', PyInt 2)]\<rparr>\<rparr>"
    using inst by blast
  show ?thesis
    using f s
    by (simp add: prod_eq_iff query_events_def hook_events_def QuerySet_filter_def
        add_filter_append QuerySet_init_def QueryBuilder_init_def)
qed

subsection \<open>Model.get without conditions\<close>

text \<open>
  Claim C10: with no keyword at all \<open>Model.get\<close> neither rejects the call nor leaves
  the \<open>WHERE\<close> out: it fetches with the statement \<open>SELECT * FROM t WHERE  LIMIT 1\<close>,
  whose \<open>WHERE\<close> has no condition, and no parameters, and on an established connection
  that statement is what the driver is given.
\<close>

theorem Model_get_no_conditions:
  "Model_get sq pm cls [] db =
     fetch_one sq pm (''SELECT * FROM '' @ cls_table_name cls @ '' WHERE  LIMIT 1'') [] db \<and>
   (\<forall>conn rows conn'.
      connection db = Some conn \<and> hooks_return pm \<and>
      cursor_execute sq conn (''SELECT * FROM '' @ cls_table_name cls @ '' WHERE  LIMIT 1'') [] =
        Done rows conn'
      \<longrightarrow> Model_get sq pm cls [] db =
            (Inr (fetchone rows),
             db\<lparr>connection := Some conn',
                trace := trace db @
                  query_events pm (''SELECT * FROM '' @ cls_table_name cls @ '' WHERE  LIMIT 1'') []\<rparr>))"
proof -
  let ?q = "''SELECT * FROM '' @ cls_table_name cls @ '' WHERE  LIMIT 1''"
  have stmt: "Model_get sq pm cls [] db = fetch_one sq pm ?q [] db"
    by (simp add: Model_get_def)
  have run: "Model_get sq pm cls [] db =
      (Inr (fetchone rows), db\<lparr>connection := Some conn', trace := trace db @ query_events pm ?q []\<rparr>)"
    if "connection db = Some conn" "hooks_return pm" "cursor_execute sq conn ?q [] = Done rows conn'"
    for conn rows conn'
    using fetch_one_returns [OF that] by (simp only: stmt)
  show ?thesis
    using stmt run by blast
qed

theorem Model_get_no_conditions_witness:
  "Model_get
     \<lparr>cursor_execute = (\<lambda>c q ps. Done [] (Suc c)), executescript = (\<lambda>c q. Done [] c),
      commit = (\<lambda>c. Inr c), rollback = (\<lambda>c. c)\<rparr>
     [] \<lparr>cls_table_name = ''users'', cls_fields = []\<rparr> []
     \<lparr>db_path = ''app.db'', connection = Some (0::nat), trace = []\<rparr> =
   (Inr None,
    \<lparr>db_path = ''app.db'', connection = Some (Suc 0),
     trace = [Executed ''SELECT * FROM users WHERE  LIMIT 1'' []]\<rparr>)"
  using Model_get_no_conditions
    [where sq = "\<lparr>cursor_execute = (\<lambda>c q ps. Done [] (Suc c)), executescript = (\<lambda>c q. Done [] c),
                   commit = (\<lambda>c. Inr c), rollback = (\<lambda>c. c)\<rparr>"
       and pm = "[]" and cls = "\<lparr>cls_table_name = ''users'', cls_fields = []\<rparr>"
       and db = "\<lparr>db_path = ''app.db'', connection = Some (0::nat), trace = []\<rparr>",
     THEN conjunct2, rule_format, of 0 "[]" "Suc 0"]
  by (simp add: hooks_return_def query_events_def hook_events_def fetchone_def)

end
